theory Spec2Isabelle
  imports Main
begin

section \<open>Querymind: database tools, dispatcher and conversation loop\<close>

text \<open>
  A shallow embedding of \<^verbatim>\<open>Querymind/tools.py\<close>, \<^verbatim>\<open>Querymind/agent.py\<close> and the session
  persistence of \<^verbatim>\<open>app.py\<close>.

  Python exceptions are values of the type \<open>exn\<close>; a computation that may raise returns
  \<open>exn + 'a\<close> with \<open>Inl\<close> the raised exception. Everything the tools do to the SQLite
  connection is recorded as a list of events, threaded through every function that touches
  the database. The SQLite engine and the chat model are libraries outside the repository:
  both are parameters of the model.
\<close>

subsection \<open>Python values and their renderings\<close>

datatype exn =
    FileNotFoundError string
  | DatabaseError string
  | IndexError string
  | KeyError string
  | ValidationError string
  | RuntimeError string
  | ProviderError string

text \<open>\<^verbatim>\<open>str(e)\<close>: the message the exception was built with (for a \<^verbatim>\<open>KeyError\<close> the
  field already holds the rendered key).\<close>

fun exn_str :: "exn \<Rightarrow> string" where
  "exn_str (FileNotFoundError m) = m"
| "exn_str (DatabaseError m) = m"
| "exn_str (IndexError m) = m"
| "exn_str (KeyError m) = m"
| "exn_str (ValidationError m) = m"
| "exn_str (RuntimeError m) = m"
| "exn_str (ProviderError m) = m"

text \<open>Column values as the \<^verbatim>\<open>sqlite3\<close> module hands them over: \<^verbatim>\<open>None\<close>, an \<^verbatim>\<open>int\<close> or
  a \<^verbatim>\<open>str\<close>. \<^verbatim>\<open>REAL\<close> and \<^verbatim>\<open>BLOB\<close> columns (floats, bytes) are outside the model.
  A fetched row is a tuple of column values.\<close>

datatype sql_value = SqlNull | SqlInt int | SqlText string

type_synonym row = "sql_value list"

fun str_nat :: "nat \<Rightarrow> string" where
  "str_nat n =
     (if n < 10 then [''0123456789'' ! n]
      else str_nat (n div 10) @ [''0123456789'' ! (n mod 10)])"

declare str_nat.simps [simp del]

definition py_str_int :: "int \<Rightarrow> string" where
  "py_str_int i = (if i < 0 then ''-'' @ str_nat (nat (- i)) else str_nat (nat i))"

definition hex2 :: "nat \<Rightarrow> string" where
  "hex2 n = [''0123456789abcdef'' ! ((n div 16) mod 16), ''0123456789abcdef'' ! (n mod 16)]"

text \<open>\<^verbatim>\<open>repr\<close> of a \<^verbatim>\<open>str\<close>: single quotes unless the text holds a single and no double
  quote; the quote and the backslash are escaped, tab, newline and carriage return are
  written \<^verbatim>\<open>\t\<close>, \<^verbatim>\<open>\n\<close>, \<^verbatim>\<open>\r\<close>, other control characters as \<^verbatim>\<open>\xhh\<close>. Bytes above
  127 (UTF-8 of printable text) are copied.\<close>

definition repr_quote :: "string \<Rightarrow> char" where
  "repr_quote s = (if CHR 0x27 \<in> set s \<and> CHR 0x22 \<notin> set s then CHR 0x22 else CHR 0x27)"

definition repr_char :: "char \<Rightarrow> char \<Rightarrow> string" where
  "repr_char q c =
     (if c = q \<or> c = CHR 0x5C then [CHR 0x5C, c]
      else if c = CHR 0x09 then [CHR 0x5C, CHR ''t'']
      else if c = CHR 0x0A then [CHR 0x5C, CHR ''n'']
      else if c = CHR 0x0D then [CHR 0x5C, CHR ''r'']
      else if (of_char c :: nat) < 32 \<or> (of_char c :: nat) = 127
        then [CHR 0x5C, CHR ''x''] @ hex2 (of_char c)
      else [c])"

definition py_repr_str :: "string \<Rightarrow> string" where
  "py_repr_str s = [repr_quote s] @ concat (map (repr_char (repr_quote s)) s) @ [repr_quote s]"

fun py_repr :: "sql_value \<Rightarrow> string" where
  "py_repr SqlNull = ''None''"
| "py_repr (SqlInt i) = py_str_int i"
| "py_repr (SqlText s) = py_repr_str s"

text \<open>\<^verbatim>\<open>sep.join(parts)\<close>.\<close>

fun py_join :: "string \<Rightarrow> string list \<Rightarrow> string" where
  "py_join sep [] = []"
| "py_join sep [x] = x"
| "py_join sep (x # y # ys) = x @ sep @ py_join sep (y # ys)"

text \<open>\<^verbatim>\<open>str\<close> of a list and of a tuple of column values; the one-element tuple keeps its
  trailing comma.\<close>

definition py_str_list :: "sql_value list \<Rightarrow> string" where
  "py_str_list vs = ''['' @ py_join '', '' (map py_repr vs) @ '']''"

definition py_str_tuple :: "row \<Rightarrow> string" where
  "py_str_tuple vs =
     (case vs of
        [v] \<Rightarrow> ''('' @ py_repr v @ '',)''
      | _ \<Rightarrow> ''('' @ py_join '', '' (map py_repr vs) @ '')'')"



subsection \<open>The database connection: environment and events\<close>

datatype event =
    Connect string
  | Cursor
  | Execute string
  | Fetchall
  | Commit
  | Rollback
  | CursorClose
  | ConnClose

text \<open>
  \<open>DATABASE_PATH\<close> is \<^verbatim>\<open>Config.Path.DATABASE_PATH\<close> (\<open>None\<close> until a database is selected),
  \<open>path_exists\<close> is \<^verbatim>\<open>Path.exists\<close>. \<open>engine\<close> is SQLite itself: what
  \<^verbatim>\<open>cursor.execute(sql)\<close> followed by \<^verbatim>\<open>cursor.fetchall()\<close> gives for a statement text after
  the events so far, either the message of the \<^verbatim>\<open>sqlite3.Error\<close> raised or the rows.
\<close>

record env =
  DATABASE_PATH :: "string option"
  path_exists :: "string \<Rightarrow> bool"
  engine :: "event list \<Rightarrow> string \<Rightarrow> string + row list"

type_synonym 'a db_action = "event list \<Rightarrow> (exn + 'a) \<times> event list"

text \<open>
  \<^verbatim>\<open>with_sql_cursor(readonly=True)\<close>, a generator-based context manager, together with the
  \<^verbatim>\<open>with\<close> block \<open>body\<close> it encloses. The path check raises before anything is opened. An
  exception of the body is thrown into the generator at its \<^verbatim>\<open>yield\<close>: the \<^verbatim>\<open>except\<close>
  clause rolls back unless read-only and re-raises; the \<^verbatim>\<open>finally\<close> clause closes cursor
  and connection on both paths. \<^verbatim>\<open>connect\<close>, \<^verbatim>\<open>commit\<close>, \<^verbatim>\<open>rollback\<close> and \<^verbatim>\<open>close\<close>
  themselves are taken to succeed, and what the body raises is an \<^verbatim>\<open>Exception\<close> (the
  values of \<open>exn\<close>), which is what the \<^verbatim>\<open>except\<close> clause catches.
\<close>

definition with_sql_cursor :: "env \<Rightarrow> bool \<Rightarrow> 'a db_action \<Rightarrow> 'a db_action" where
  "with_sql_cursor cfg readonly body tr =
     (case DATABASE_PATH cfg of
        None \<Rightarrow> (Inl (FileNotFoundError ''Database file not found: None''), tr)
      | Some p \<Rightarrow>
          if \<not> path_exists cfg p
          then (Inl (FileNotFoundError (''Database file not found: '' @ p)), tr)
          else
            (case body (tr @ [Connect p, Cursor]) of
               (Inr v, tr') \<Rightarrow>
                 (Inr v, (if \<not> readonly then tr' @ [Commit] else tr') @ [CursorClose, ConnClose])
             | (Inl e, tr') \<Rightarrow>
                 (Inl e, (if \<not> readonly then tr' @ [Rollback] else tr') @ [CursorClose, ConnClose])))"

definition cursor_execute :: "env \<Rightarrow> string \<Rightarrow> row list db_action" where
  "cursor_execute cfg sql tr =
     (case engine cfg tr sql of
        Inl m \<Rightarrow> (Inl (DatabaseError m), tr @ [Execute sql])
      | Inr rows \<Rightarrow> (Inr rows, tr @ [Execute sql]))"

text \<open>\<^verbatim>\<open>cursor.execute(sql); rows = cursor.fetchall()\<close>.\<close>

definition execute_fetchall :: "env \<Rightarrow> string \<Rightarrow> row list db_action" where
  "execute_fetchall cfg sql tr =
     (case cursor_execute cfg sql tr of
        (Inl e, tr') \<Rightarrow> (Inl e, tr')
      | (Inr rows, tr') \<Rightarrow> (Inr rows, tr' @ [Fetchall]))"

subsection \<open>The four tools\<close>

definition NO_DATABASE :: string where
  "NO_DATABASE =
     ''Error: No database has been uploaded yet. Please upload a SQLite database file first.''"

definition LIST_TABLES_SQL :: string where
  "LIST_TABLES_SQL =
     ''SELECT name FROM sqlite_master WHERE type='table' AND name NOT LIKE 'sqlite_%';''"

text \<open>\<^verbatim>\<open>[row[0] for row in rows]\<close>; indexing an empty tuple raises.\<close>

fun first_column :: "row list \<Rightarrow> exn + sql_value list" where
  "first_column [] = Inr []"
| "first_column ([] # rs) = Inl (IndexError ''tuple index out of range'')"
| "first_column ((v # vs) # rs) =
     (case first_column rs of Inl e \<Rightarrow> Inl e | Inr ws \<Rightarrow> Inr (v # ws))"

definition list_tables_body :: "env \<Rightarrow> sql_value list db_action" where
  "list_tables_body cfg tr =
     (case execute_fetchall cfg LIST_TABLES_SQL tr of
        (Inl e, tr') \<Rightarrow> (Inl e, tr')
      | (Inr rows, tr') \<Rightarrow> (first_column rows, tr'))"

text \<open>Each tool catches \<^verbatim>\<open>FileNotFoundError\<close> first and any other \<^verbatim>\<open>Exception\<close> second, and
  returns a text on every path. The \<open>reasoning\<close> argument is only logged; the
  logging calls (\<^verbatim>\<open>log_panel\<close>, \<^verbatim>\<open>log\<close>) write to the console and are left out.\<close>

definition list_tables :: "env \<Rightarrow> string \<Rightarrow> string db_action" where
  "list_tables cfg reasoning tr =
     (case with_sql_cursor cfg True (list_tables_body cfg) tr of
        (Inr tables, tr') \<Rightarrow> (Inr (py_str_list tables), tr')
      | (Inl (FileNotFoundError m), tr') \<Rightarrow> (Inr NO_DATABASE, tr')
      | (Inl e, tr') \<Rightarrow> (Inr (''Error listing tables: '' @ exn_str e), tr'))"

definition sample_table_sql :: "string \<Rightarrow> int \<Rightarrow> string" where
  "sample_table_sql table_name row_sample_size =
     ''SELECT * FROM '' @ table_name @ '' LIMIT '' @ py_str_int row_sample_size @ '';''"

definition sample_table :: "env \<Rightarrow> string \<Rightarrow> string \<Rightarrow> int \<Rightarrow> string db_action" where
  "sample_table cfg reasoning table_name row_sample_size tr =
     (case with_sql_cursor cfg True
             (execute_fetchall cfg (sample_table_sql table_name row_sample_size)) tr of
        (Inr rows, tr') \<Rightarrow> (Inr (py_join [CHR 0x0A] (map py_str_tuple rows)), tr')
      | (Inl (FileNotFoundError m), tr') \<Rightarrow> (Inr NO_DATABASE, tr')
      | (Inl e, tr') \<Rightarrow> (Inr (''Error sampling table: '' @ exn_str e), tr'))"

definition describe_table_sql :: "string \<Rightarrow> string" where
  "describe_table_sql table_name = ''PRAGMA table_info('' @ [CHR 0x27] @ table_name @ [CHR 0x27] @ '');''"

definition describe_table :: "env \<Rightarrow> string \<Rightarrow> string \<Rightarrow> string db_action" where
  "describe_table cfg reasoning table_name tr =
     (case with_sql_cursor cfg True (execute_fetchall cfg (describe_table_sql table_name)) tr of
        (Inr rows, tr') \<Rightarrow> (Inr (py_join [CHR 0x0A] (map py_str_tuple rows)), tr')
      | (Inl (FileNotFoundError m), tr') \<Rightarrow> (Inr NO_DATABASE, tr')
      | (Inl e, tr') \<Rightarrow> (Inr (''Error describing table: '' @ exn_str e), tr'))"

definition execute_sql :: "env \<Rightarrow> string \<Rightarrow> string \<Rightarrow> string db_action" where
  "execute_sql cfg reasoning sql_query tr =
     (case with_sql_cursor cfg True (execute_fetchall cfg sql_query) tr of
        (Inr rows, tr') \<Rightarrow> (Inr (py_join [CHR 0x0A] (map py_str_tuple rows)), tr')
      | (Inl (FileNotFoundError m), tr') \<Rightarrow> (Inr NO_DATABASE, tr')
      | (Inl e, tr') \<Rightarrow> (Inr (''Error running query: '' @ exn_str e), tr'))"

subsection \<open>What SQLite answers to the statements the tools build\<close>

text \<open>
  The \<^verbatim>\<open>LIKE\<close> operator of SQLite on 8-bit text: \<^verbatim>\<open>%\<close> matches any run of characters,
  \<^verbatim>\<open>_\<close> matches exactly one character of any kind, and every other character of the
  pattern matches itself, upper and lower case ASCII letters alike. The statement of
  \<open>list_tables\<close> gives no \<^verbatim>\<open>ESCAPE\<close> character.
\<close>

definition ascii_lower :: "char \<Rightarrow> char" where
  "ascii_lower c =
     (if 65 \<le> (of_char c :: nat) \<and> (of_char c :: nat) \<le> 90 then char_of ((of_char c :: nat) + 32)
      else c)"

fun sql_like :: "string \<Rightarrow> string \<Rightarrow> bool" where
  "sql_like [] [] = True"
| "sql_like [] (c # cs) = False"
| "sql_like (p # ps) [] = (p = CHR ''%'' \<and> sql_like ps [])"
| "sql_like (p # ps) (c # cs) =
     (if p = CHR ''%'' then sql_like ps (c # cs) \<or> sql_like (p # ps) cs
      else if p = CHR ''_'' then sql_like ps cs
      else ascii_lower p = ascii_lower c \<and> sql_like ps cs)"

text \<open>
  The schema catalogue \<^verbatim>\<open>sqlite_master\<close> as its \<open>(type, name)\<close> pairs, and the rows of
  \<^verbatim>\<open>SELECT name FROM sqlite_master WHERE type='table' AND name NOT LIKE 'sqlite_%'\<close>
  over it.
\<close>

type_synonym catalogue = "(string \<times> string) list"

definition select_table_names :: "catalogue \<Rightarrow> row list" where
  "select_table_names master =
     map (\<lambda>(ty, name). [SqlText name])
       (filter (\<lambda>(ty, name). ty = ''table'' \<and> \<not> sql_like ''sqlite_%'' name) master)"

text \<open>The names the statement of \<open>list_tables\<close> selects from a catalogue.\<close>

definition listed_names :: "catalogue \<Rightarrow> string list" where
  "listed_names master =
     map snd (filter (\<lambda>(ty, name). ty = ''table'' \<and> \<not> sql_like ''sqlite_%'' name) master)"

text \<open>The user tables of a catalogue: every table but the engine's own, whose names
  start with \<^verbatim>\<open>sqlite_\<close> (a prefix SQLite reserves, so no user table carries it).\<close>

definition engine_internal :: "string \<Rightarrow> bool" where
  "engine_internal name = (take 7 name = ''sqlite_'')"

definition user_tables :: "catalogue \<Rightarrow> string list" where
  "user_tables master =
     map snd (filter (\<lambda>(ty, name). ty = ''table'' \<and> \<not> engine_internal name) master)"

text \<open>The rows of \<^verbatim>\<open>SELECT * FROM t LIMIT n\<close> over the stored rows of the tables: an
  unknown table is an error, a negative limit is no limit.\<close>

definition select_limit :: "(string \<rightharpoonup> row list) \<Rightarrow> string \<Rightarrow> int \<Rightarrow> string + row list" where
  "select_limit tables t n =
     (case tables t of
        None \<Rightarrow> Inl (''no such table: '' @ t)
      | Some rows \<Rightarrow> Inr (if n < 0 then rows else take (nat n) rows))"

subsection \<open>The tool registry and the dispatcher\<close>

datatype tool = ListTables | SampleTable | DescribeTable | ExecuteSql

fun tool_name :: "tool \<Rightarrow> string" where
  "tool_name ListTables = ''list_tables''"
| "tool_name SampleTable = ''sample_table''"
| "tool_name DescribeTable = ''describe_table''"
| "tool_name ExecuteSql = ''execute_sql''"

definition get_available_tools :: "tool list" where
  "get_available_tools = [ListTables, SampleTable, DescribeTable, ExecuteSql]"

text \<open>
  A tool call of the model: \<^verbatim>\<open>name\<close>, \<^verbatim>\<open>args\<close> and \<^verbatim>\<open>id\<close>. The argument mapping is
  kept as the four parameter names the tools declare, each absent or holding a value of
  the declared type; values of another type are outside the model.
\<close>

record tool_args =
  reasoning :: "string option"
  table_name :: "string option"
  row_sample_size :: "int option"
  sql_query :: "string option"

record tool_call =
  tc_name :: string
  tc_args :: tool_args
  tc_id :: string

datatype message =
    SystemMessage string
  | HumanMessage string
  | AIMessage string "tool_call list"
  | ToolMessage string string

text \<open>
  \<^verbatim>\<open>tool.invoke(args)\<close>: the tool layer checks the mapping against the parameters the
  function declares and raises a validation error when a required one is missing; only
  then the function body runs.
\<close>

definition missing_arg :: "string \<Rightarrow> exn" where
  "missing_arg p = ValidationError (p @ '': Field required'')"

fun invoke :: "env \<Rightarrow> tool \<Rightarrow> tool_args \<Rightarrow> string db_action" where
  "invoke cfg ListTables a tr =
     (case reasoning a of
        None \<Rightarrow> (Inl (missing_arg ''reasoning''), tr)
      | Some r \<Rightarrow> list_tables cfg r tr)"
| "invoke cfg SampleTable a tr =
     (case reasoning a of
        None \<Rightarrow> (Inl (missing_arg ''reasoning''), tr)
      | Some r \<Rightarrow>
          (case table_name a of
             None \<Rightarrow> (Inl (missing_arg ''table_name''), tr)
           | Some t \<Rightarrow>
               (case row_sample_size a of
                  None \<Rightarrow> (Inl (missing_arg ''row_sample_size''), tr)
                | Some n \<Rightarrow> sample_table cfg r t n tr)))"
| "invoke cfg DescribeTable a tr =
     (case reasoning a of
        None \<Rightarrow> (Inl (missing_arg ''reasoning''), tr)
      | Some r \<Rightarrow>
          (case table_name a of
             None \<Rightarrow> (Inl (missing_arg ''table_name''), tr)
           | Some t \<Rightarrow> describe_table cfg r t tr))"
| "invoke cfg ExecuteSql a tr =
     (case reasoning a of
        None \<Rightarrow> (Inl (missing_arg ''reasoning''), tr)
      | Some r \<Rightarrow>
          (case sql_query a of
             None \<Rightarrow> (Inl (missing_arg ''sql_query''), tr)
           | Some q \<Rightarrow> execute_sql cfg r q tr))"

text \<open>\<^verbatim>\<open>tools_by_name = {tool.name: tool for tool in get_available_tools()}\<close>; in a dict
  comprehension a later entry of the same name would replace an earlier one.\<close>

definition tools_by_name :: "string \<rightharpoonup> tool" where
  "tools_by_name = map_of (rev (map (\<lambda>t. (tool_name t, t)) get_available_tools))"

text \<open>\<^verbatim>\<open>call_tool\<close>: the subscript \<^verbatim>\<open>tools_by_name[tool_call["name"]]\<close> raises \<^verbatim>\<open>KeyError\<close>
  for a name that is no key; nothing in the function catches it, nor what \<open>invoke\<close>
  raises.\<close>

definition call_tool :: "env \<Rightarrow> tool_call \<Rightarrow> message db_action" where
  "call_tool cfg tool_call tr =
     (case tools_by_name (tc_name tool_call) of
        None \<Rightarrow> (Inl (KeyError (py_repr_str (tc_name tool_call))), tr)
      | Some tool \<Rightarrow>
          (case invoke cfg tool (tc_args tool_call) tr of
             (Inl e, tr') \<Rightarrow> (Inl e, tr')
           | (Inr response, tr') \<Rightarrow> (Inr (ToolMessage response (tc_id tool_call)), tr')))"

subsection \<open>The conversation loop\<close>

text \<open>
  What \<^verbatim>\<open>llm.invoke(messages)\<close> returns: an assistant message with its text and its
  tool calls. The chat model is any function of its own state and the messages shown to
  it; it may raise.
\<close>

record ai_response =
  content :: string
  tool_calls :: "tool_call list"

type_synonym 'l chat_model = "'l \<Rightarrow> message list \<Rightarrow> (exn + ai_response) \<times> 'l"

text \<open>
  Python lists are objects that several names may share, so the message lists live in a
  heap of list objects addressed by position. \<open>model\<close> is the state of the chat model,
  \<open>events\<close> what has happened on the database, and \<open>calls\<close> keeps, for every
  \<^verbatim>\<open>llm.invoke\<close> so far, the messages it was shown and the response it gave.
\<close>

record 'l world =
  heap :: "message list list"
  model :: 'l
  events :: "event list"
  calls :: "(message list \<times> ai_response) list"

text \<open>\<^verbatim>\<open>history.copy()\<close> allocates a new list with the same elements.\<close>

definition list_copy :: "nat \<Rightarrow> 'l world \<Rightarrow> nat \<times> 'l world" where
  "list_copy r w = (length (heap w), w\<lparr>heap := heap w @ [heap w ! r]\<rparr>)"

text \<open>\<^verbatim>\<open>messages.append(m)\<close> changes the list object in place.\<close>

definition list_append :: "nat \<Rightarrow> message \<Rightarrow> 'l world \<Rightarrow> 'l world" where
  "list_append r m w = w\<lparr>heap := (heap w)[r := heap w ! r @ [m]]\<rparr>"

definition llm_invoke :: "'l chat_model \<Rightarrow> nat \<Rightarrow> 'l world \<Rightarrow> (exn + ai_response) \<times> 'l world" where
  "llm_invoke llm messages w =
     (case llm (model w) (heap w ! messages) of
        (Inl e, l') \<Rightarrow> (Inl e, w\<lparr>model := l'\<rparr>)
      | (Inr response, l') \<Rightarrow>
          (Inr response, w\<lparr>model := l', calls := calls w @ [(heap w ! messages, response)]\<rparr>))"

text \<open>The \<^verbatim>\<open>for tool_call in response.tool_calls\<close> loop of \<open>ask\<close>: an exception of
  \<open>call_tool\<close> leaves the loop and \<open>ask\<close>.\<close>

fun ask_tool_calls :: "env \<Rightarrow> nat \<Rightarrow> tool_call list \<Rightarrow> 'l world \<Rightarrow> (exn + unit) \<times> 'l world" where
  "ask_tool_calls cfg messages [] w = (Inr (), w)"
| "ask_tool_calls cfg messages (tool_call # rest) w =
     (case call_tool cfg tool_call (events w) of
        (Inl e, tr') \<Rightarrow> (Inl e, w\<lparr>events := tr'\<rparr>)
      | (Inr response, tr') \<Rightarrow>
          ask_tool_calls cfg messages rest (list_append messages response (w\<lparr>events := tr'\<rparr>)))"

definition ITERATION_LIMIT :: string where
  "ITERATION_LIMIT =
     ''Maximum number of iterations reached. Please try again with a different query.''"

text \<open>The \<^verbatim>\<open>while n_iterations < max_iterations\<close> loop and the \<^verbatim>\<open>raise\<close> after it.\<close>

function ask_loop ::
  "env \<Rightarrow> 'l chat_model \<Rightarrow> int \<Rightarrow> nat \<Rightarrow> int \<Rightarrow> 'l world \<Rightarrow> (exn + string) \<times> 'l world" where
  "ask_loop cfg llm max_iterations messages n_iterations w =
     (if n_iterations < max_iterations then
        (case llm_invoke llm messages w of
           (Inl e, w1) \<Rightarrow> (Inl e, w1)
         | (Inr response, w1) \<Rightarrow>
             (if tool_calls response = []
              then (Inr (content response),
                    list_append messages (AIMessage (content response) (tool_calls response)) w1)
              else
                (case ask_tool_calls cfg messages (tool_calls response)
                        (list_append messages
                           (AIMessage (content response) (tool_calls response)) w1) of
                   (Inl e, w2) \<Rightarrow> (Inl e, w2)
                 | (Inr u, w2) \<Rightarrow>
                     ask_loop cfg llm max_iterations messages (n_iterations + 1) w2)))
      else (Inl (RuntimeError ITERATION_LIMIT), w))"
  by pat_completeness auto
termination
  by (relation "measure (\<lambda>(cfg, llm, max_iterations, messages, n_iterations, w).
                  nat (max_iterations - n_iterations))") auto

declare ask_loop.simps [simp del]

definition ask ::
  "env \<Rightarrow> string \<Rightarrow> nat \<Rightarrow> 'l chat_model \<Rightarrow> int \<Rightarrow> 'l world \<Rightarrow> (exn + string) \<times> 'l world" where
  "ask cfg query history llm max_iterations w =
     (case list_copy history w of
        (messages, w1) \<Rightarrow>
          ask_loop cfg llm max_iterations messages 0 (list_append messages (HumanMessage query) w1))"

subsection \<open>Saving and loading chat sessions\<close>














subsection \<open>Notions the properties are stated with\<close>





text \<open>A model stub: the response to each invocation is scripted by the number of the
  invocation and the messages shown; the state of the stub counts the invocations.\<close>

definition stub_llm :: "(nat \<Rightarrow> message list \<Rightarrow> ai_response) \<Rightarrow> nat chat_model" where
  "stub_llm script i messages = (Inr (script i messages), i + 1)"

text \<open>The call identifier a tool-result message is tagged with.\<close>

fun tool_result_id :: "message \<Rightarrow> string option" where
  "tool_result_id (ToolMessage c i) = Some i"
| "tool_result_id m = None"

text \<open>
  \<open>answered (shown, response) msgs\<close>: the message list \<open>msgs\<close> is the list \<open>shown\<close> to
  the model, then the assistant message of its \<open>response\<close>, then nothing but one
  tool-result message for each tool call of the response, tagged in the order of the
  calls. \<open>paired\<close> says so of every invocation in a row and the messages shown to the
  next.
\<close>

definition answered :: "message list \<times> ai_response \<Rightarrow> message list \<Rightarrow> bool" where
  "answered c msgs =
     (take (length (fst c) + 1) msgs
        = fst c @ [AIMessage (content (snd c)) (tool_calls (snd c))]
      \<and> map tool_result_id (drop (length (fst c) + 1) msgs)
        = map (\<lambda>tc. Some (tc_id tc)) (tool_calls (snd c)))"

fun paired :: "(message list \<times> ai_response) list \<Rightarrow> bool" where
  "paired [] = True"
| "paired [c] = True"
| "paired (c # d # cs) = (answered c (fst d) \<and> paired (d # cs))"


subsection \<open>Sample environments\<close>


text \<open>A database \<^verbatim>\<open>shop.db\<close> with one user table of one row, an index, and the engine's
  sequence table.\<close>

definition shop_master :: catalogue where
  "shop_master =
     [(''table'', ''orders''), (''index'', ''orders_by_item''), (''table'', ''sqlite_sequence'')]"

definition shop_tables :: "string \<rightharpoonup> row list" where
  "shop_tables = [''orders'' \<mapsto> [[SqlInt 1, SqlText ''tea'']]]"

definition shop_engine :: "event list \<Rightarrow> string \<Rightarrow> string + row list" where
  "shop_engine tr sql =
     (if sql = LIST_TABLES_SQL then Inr (select_table_names shop_master)
      else if sql = sample_table_sql ''orders'' 3 then select_limit shop_tables ''orders'' 3
      else if sql = ''DELETE FROM orders;'' then Inr []
      else Inl ''syntax error'')"

definition shop_env :: env where
  "shop_env =
     \<lparr>DATABASE_PATH = Some ''shop.db'', path_exists = (\<lambda>p. p = ''shop.db''),
      engine = shop_engine\<rparr>"

text \<open>A database \<^verbatim>\<open>archive.db\<close> whose only table is the user table \<^verbatim>\<open>sqlitedata\<close>.\<close>

definition archive_master :: catalogue where
  "archive_master = [(''table'', ''sqlitedata'')]"

definition archive_env :: env where
  "archive_env =
     \<lparr>DATABASE_PATH = Some ''archive.db'', path_exists = (\<lambda>p. p = ''archive.db''),
      engine = (\<lambda>tr sql. if sql = LIST_TABLES_SQL then Inr (select_table_names archive_master)
                          else Inl ''syntax error'')\<rparr>"

text \<open>Tool calls and stubs: a call of \<open>list_tables\<close>, a call of a tool that does not
  exist, a stub that answers after one round of tools, and two that never stop asking.\<close>

definition list_call :: tool_call where
  "list_call =
     \<lparr>tc_name = ''list_tables'',
      tc_args = \<lparr>reasoning = Some ''see the schema'', table_name = None,
                 row_sample_size = None, sql_query = None\<rparr>,
      tc_id = ''call_1''\<rparr>"


definition one_round_script :: "nat \<Rightarrow> message list \<Rightarrow> ai_response" where
  "one_round_script i messages =
     (if i = 0 then \<lparr>content = [], tool_calls = [list_call]\<rparr>
      else \<lparr>content = ''One table: orders.'', tool_calls = []\<rparr>)"



definition start_world :: "nat world" where
  "start_world =
     \<lparr>heap = [[SystemMessage ''You are QueryMind.'']], model = 0, events = [], calls = []\<rparr>"





section \<open>Properties\<close>

subsection \<open>The scoped database session\<close>


lemma execute_fetchall_events:
  "execute_fetchall cfg sql tr =
     (case engine cfg tr sql of
        Inl m \<Rightarrow> (Inl (DatabaseError m), tr @ [Execute sql])
      | Inr rows \<Rightarrow> (Inr rows, tr @ [Execute sql, Fetchall]))"
  by (simp add: execute_fetchall_def cursor_execute_def split: sum.splits)

text \<open>A read-only session adds no commit and no rollback to what its body does.\<close>

lemma with_sql_cursor_readonly_events:
  assumes "\<And>tr0. \<exists>evs. snd (body tr0) = tr0 @ evs \<and> Commit \<notin> set evs \<and> Rollback \<notin> set evs"
  shows "\<exists>evs. snd (with_sql_cursor cfg True body tr) = tr @ evs
            \<and> Commit \<notin> set evs \<and> Rollback \<notin> set evs"
proof (cases "DATABASE_PATH cfg")
  case None
  then show ?thesis by (simp add: with_sql_cursor_def)
next
  case (Some p)
  show ?thesis
  proof (cases "path_exists cfg p")
    case False
    with Some show ?thesis by (simp add: with_sql_cursor_def)
  next
    case True
    obtain evs where e: "snd (body (tr @ [Connect p, Cursor])) = (tr @ [Connect p, Cursor]) @ evs"
      "Commit \<notin> set evs" "Rollback \<notin> set evs"
      using assms by blast
    obtain res tr' where b: "body (tr @ [Connect p, Cursor]) = (res, tr')"
      by (cases "body (tr @ [Connect p, Cursor])")
    with e have tr': "tr' = tr @ [Connect p, Cursor] @ evs" by simp
    have "snd (with_sql_cursor cfg True body tr) =
            tr @ ([Connect p, Cursor] @ evs @ [CursorClose, ConnClose])"
      using Some True b tr' by (cases res) (simp_all add: with_sql_cursor_def)
    moreover have "Commit \<notin> set ([Connect p, Cursor] @ evs @ [CursorClose, ConnClose])"
      "Rollback \<notin> set ([Connect p, Cursor] @ evs @ [CursorClose, ConnClose])"
      using e by simp_all
    ultimately show ?thesis by blast
  qed
qed

lemma execute_fetchall_no_commit:
  "\<exists>evs. snd (execute_fetchall cfg sql tr0) = tr0 @ evs \<and> Commit \<notin> set evs \<and> Rollback \<notin> set evs"
  by (cases "engine cfg tr0 sql") (simp_all add: execute_fetchall_events)

lemma list_tables_body_no_commit:
  "\<exists>evs. snd (list_tables_body cfg tr0) = tr0 @ evs \<and> Commit \<notin> set evs \<and> Rollback \<notin> set evs"
  by (cases "engine cfg tr0 LIST_TABLES_SQL")
     (simp_all add: list_tables_body_def execute_fetchall_events)

lemma list_tables_snd:
  "snd (list_tables cfg r tr) = snd (with_sql_cursor cfg True (list_tables_body cfg) tr)"
  by (simp add: list_tables_def split: prod.splits sum.splits exn.splits)

lemma sample_table_snd:
  "snd (sample_table cfg r t n tr) =
   snd (with_sql_cursor cfg True (execute_fetchall cfg (sample_table_sql t n)) tr)"
  by (simp add: sample_table_def split: prod.splits sum.splits exn.splits)

lemma describe_table_snd:
  "snd (describe_table cfg r t tr) =
   snd (with_sql_cursor cfg True (execute_fetchall cfg (describe_table_sql t)) tr)"
  by (simp add: describe_table_def split: prod.splits sum.splits exn.splits)

lemma execute_sql_snd:
  "snd (execute_sql cfg r q tr) = snd (with_sql_cursor cfg True (execute_fetchall cfg q) tr)"
  by (simp add: execute_sql_def split: prod.splits sum.splits exn.splits)

text \<open>
  C1, as the code has it. \<open>execute_sql\<close> opens its session like the three other tools, with
  the default \<^verbatim>\<open>readonly=True\<close>: whatever the statement and whatever the engine answers,
  the events a call of any of the four tools adds hold neither a commit nor a rollback.
\<close>

theorem tools_never_commit:
  "(\<exists>evs. snd (execute_sql cfg r q tr) = tr @ evs \<and> Commit \<notin> set evs \<and> Rollback \<notin> set evs)
 \<and> (\<exists>evs. snd (list_tables cfg r tr) = tr @ evs \<and> Commit \<notin> set evs \<and> Rollback \<notin> set evs)
 \<and> (\<exists>evs. snd (sample_table cfg r t n tr) = tr @ evs \<and> Commit \<notin> set evs \<and> Rollback \<notin> set evs)
 \<and> (\<exists>evs. snd (describe_table cfg r t tr) = tr @ evs \<and> Commit \<notin> set evs \<and> Rollback \<notin> set evs)"
  unfolding list_tables_snd sample_table_snd describe_table_snd execute_sql_snd
  using with_sql_cursor_readonly_events
          [of "execute_fetchall cfg q" cfg tr, OF execute_fetchall_no_commit]
        with_sql_cursor_readonly_events
          [of "list_tables_body cfg" cfg tr, OF list_tables_body_no_commit]
        with_sql_cursor_readonly_events
          [of "execute_fetchall cfg (sample_table_sql t n)" cfg tr, OF execute_fetchall_no_commit]
        with_sql_cursor_readonly_events
          [of "execute_fetchall cfg (describe_table_sql t)" cfg tr, OF execute_fetchall_no_commit]
  by blast

theorem tools_never_commit_witness:
  "\<exists>evs. snd (execute_sql shop_env ''clean up'' ''DELETE FROM orders;'' []) = [] @ evs
      \<and> Commit \<notin> set evs \<and> Rollback \<notin> set evs"
  using tools_never_commit [of shop_env "''clean up''" "''DELETE FROM orders;''" "[]"] by blast

text \<open>
  C1 as stated fails: on \<^verbatim>\<open>shop.db\<close> the statement \<^verbatim>\<open>DELETE FROM orders;\<close> executes without
  raising, and the connection is closed with no commit in between.
\<close>

theorem execute_sql_commit_counterexample:
  "execute_sql shop_env ''clean up'' ''DELETE FROM orders;'' [] =
     (Inr [], [Connect ''shop.db'', Cursor, Execute ''DELETE FROM orders;'', Fetchall,
               CursorClose, ConnClose])
   \<and> Commit \<notin> set (snd (execute_sql shop_env ''clean up'' ''DELETE FROM orders;'' []))"
  by (simp add: execute_sql_def with_sql_cursor_def shop_env_def execute_fetchall_events
        shop_engine_def LIST_TABLES_SQL_def sample_table_sql_def)



subsection \<open>No database\<close>



subsection \<open>The dispatcher\<close>






lemma tools_by_name_simps:
  "tools_by_name name =
     (if name = ''list_tables'' then Some ListTables
      else if name = ''sample_table'' then Some SampleTable
      else if name = ''describe_table'' then Some DescribeTable
      else if name = ''execute_sql'' then Some ExecuteSql
      else None)"
  by (simp add: tools_by_name_def get_available_tools_def)






subsection \<open>Listing tables\<close>

lemma sql_like_percent: "sql_like ''%'' s"
  by (induction s) simp_all

lemma engine_internal_like:
  assumes "engine_internal name"
  shows "sql_like ''sqlite_%'' name"
proof -
  from assms have "name = ''sqlite_'' @ drop 7 name"
    unfolding engine_internal_def by (metis append_take_drop_id)
  then obtain rest where "name = ''sqlite_'' @ rest" ..
  then show ?thesis
    by (cases rest) (simp_all add: sql_like_percent ascii_lower_def)
qed

lemma first_column_select:
  "first_column (select_table_names master) = Inr (map SqlText (listed_names master))"
  by (induction master) (auto simp: select_table_names_def listed_names_def)

lemma listed_names_user: "set (listed_names master) \<subseteq> set (user_tables master)"
  using engine_internal_like by (auto simp: listed_names_def user_tables_def)

text \<open>What \<open>list_tables\<close> does return on a database the engine can read: the list of the
  names its statement selects, and so the empty list literal when there is no user
  table.\<close>

lemma list_tables_rendering:
  assumes "DATABASE_PATH cfg = Some p" and "path_exists cfg p"
    and "engine cfg (tr @ [Connect p, Cursor]) LIST_TABLES_SQL = Inr (select_table_names master)"
  shows "fst (list_tables cfg r tr) = Inr (py_str_list (map SqlText (listed_names master)))"
  using assms
  by (simp add: list_tables_def with_sql_cursor_def list_tables_body_def execute_fetchall_events
        first_column_select)

lemma list_tables_no_user_tables:
  assumes "DATABASE_PATH cfg = Some p" and "path_exists cfg p"
    and "engine cfg (tr @ [Connect p, Cursor]) LIST_TABLES_SQL = Inr (select_table_names master)"
   and "user_tables master = []"
  shows "fst (list_tables cfg r tr) = Inr ''[]''"
proof -
  have "listed_names master = []" using listed_names_user [of master] assms(4) by simp
  then show ?thesis using list_tables_rendering [OF assms(1-3)] by (simp add: py_str_list_def)
qed

text \<open>
  C7 fails on the code. In \<^verbatim>\<open>archive.db\<close> the one table is the user table
  \<^verbatim>\<open>sqlitedata\<close>, whose name does not start with \<^verbatim>\<open>sqlite_\<close>; the pattern of the
  statement takes its \<^verbatim>\<open>_\<close> for any character, so the name matches, and \<open>list_tables\<close>
  answers with the empty list.
\<close>

theorem list_tables_omits_user_table:
  "user_tables archive_master = [''sqlitedata'']
   \<and> fst (list_tables archive_env ''which tables are there'' []) = Inr ''[]''"
  by (simp add: user_tables_def archive_master_def engine_internal_def list_tables_def
        with_sql_cursor_def archive_env_def list_tables_body_def execute_fetchall_events
        select_table_names_def ascii_lower_def py_str_list_def)

subsection \<open>Sampling a table\<close>


















subsection \<open>Saving and loading a session\<close>








subsection \<open>The conversation loop\<close>

lemma call_tool_tagged:
  "call_tool cfg tc tr = (Inr m, tr') \<Longrightarrow> tool_result_id m = Some (tc_id tc)"
  by (auto simp: call_tool_def split: option.splits prod.splits sum.splits)

lemma list_append_simps:
  "model (list_append r m w) = model w"
  "calls (list_append r m w) = calls w"
  "events (list_append r m w) = events w"
  "length (heap (list_append r m w)) = length (heap w)"
  "a \<noteq> r \<Longrightarrow> heap (list_append r m w) ! a = heap w ! a"
  "r < length (heap w) \<Longrightarrow> heap (list_append r m w) ! r = heap w ! r @ [m]"
  by (simp_all add: list_append_def)

lemma ask_tool_calls_effect:
  assumes "ask_tool_calls cfg r tcs w = (res, w')"
  shows "model w' = model w \<and> calls w' = calls w \<and> length (heap w') = length (heap w)
       \<and> (\<forall>a. a \<noteq> r \<longrightarrow> heap w' ! a = heap w ! a)
       \<and> (r < length (heap w) \<longrightarrow>
            (\<exists>results. heap w' ! r = heap w ! r @ results
               \<and> (\<forall>u. res = Inr u \<longrightarrow>
                     map tool_result_id results = map (\<lambda>tc. Some (tc_id tc)) tcs)))"
  using assms
proof (induction tcs arbitrary: w)
  case Nil
  then show ?case by auto
next
  case (Cons tc rest)
  obtain out tr' where c: "call_tool cfg tc (events w) = (out, tr')"
    by (cases "call_tool cfg tc (events w)")
  show ?case
  proof (cases out)
    case (Inl e)
    with c Cons.prems show ?thesis by auto
  next
    case (Inr m)
    let ?w1 = "list_append r m (w\<lparr>events := tr'\<rparr>)"
    from c Inr Cons.prems have run: "ask_tool_calls cfg r rest ?w1 = (res, w')" by simp
    note ih = Cons.IH [OF run]
    have tag: "tool_result_id m = Some (tc_id tc)" using c Inr call_tool_tagged by blast
    have a: "model w' = model w" "calls w' = calls w" "length (heap w') = length (heap w)"
      using ih by (simp_all add: list_append_simps)
    have b: "\<forall>a. a \<noteq> r \<longrightarrow> heap w' ! a = heap w ! a"
      using ih by (simp add: list_append_simps)
    have d: "r < length (heap w) \<longrightarrow>
            (\<exists>results. heap w' ! r = heap w ! r @ results
               \<and> (\<forall>u. res = Inr u \<longrightarrow>
                     map tool_result_id results = map (\<lambda>tc. Some (tc_id tc)) (tc # rest)))"
    proof
      assume r: "r < length (heap w)"
      then have "r < length (heap ?w1)" by (simp add: list_append_simps)
      with ih obtain results where res: "heap w' ! r = heap ?w1 ! r @ results"
        "\<forall>u. res = Inr u \<longrightarrow> map tool_result_id results = map (\<lambda>tc. Some (tc_id tc)) rest"
        by blast
      have "heap ?w1 ! r = heap w ! r @ [m]" using r by (simp add: list_append_def)
      with res tag have "heap w' ! r = heap w ! r @ (m # results)"
        "\<forall>u. res = Inr u \<longrightarrow>
           map tool_result_id (m # results) = map (\<lambda>tc. Some (tc_id tc)) (tc # rest)"
        by simp_all
      then show "\<exists>results. heap w' ! r = heap w ! r @ results
               \<and> (\<forall>u. res = Inr u \<longrightarrow>
                     map tool_result_id results = map (\<lambda>tc. Some (tc_id tc)) (tc # rest))"
        by blast
    qed
    from a b d show ?thesis by blast
  qed
qed


lemma llm_invoke_effect:
  assumes "llm_invoke llm r w = (res, w1)"
  shows "heap w1 = heap w \<and> events w1 = events w
       \<and> (case res of Inl e \<Rightarrow> calls w1 = calls w
                     | Inr response \<Rightarrow> calls w1 = calls w @ [(heap w ! r, response)])"
  using assms by (auto simp: llm_invoke_def split: prod.splits sum.splits)

lemma ask_loop_cases:
  "(\<not> n < m \<and> ask_loop cfg llm m r n w = (Inl (RuntimeError ITERATION_LIMIT), w))
 \<or> (\<exists>e w1. n < m \<and> llm_invoke llm r w = (Inl e, w1) \<and> ask_loop cfg llm m r n w = (Inl e, w1))
 \<or> (\<exists>response w1. n < m \<and> llm_invoke llm r w = (Inr response, w1) \<and> tool_calls response = []
        \<and> ask_loop cfg llm m r n w =
            (Inr (content response),
             list_append r (AIMessage (content response) (tool_calls response)) w1))
 \<or> (\<exists>response w1 e w2. n < m \<and> llm_invoke llm r w = (Inr response, w1)
        \<and> tool_calls response \<noteq> []
        \<and> ask_tool_calls cfg r (tool_calls response)
             (list_append r (AIMessage (content response) (tool_calls response)) w1) = (Inl e, w2)
        \<and> ask_loop cfg llm m r n w = (Inl e, w2))
 \<or> (\<exists>response w1 u w2. n < m \<and> llm_invoke llm r w = (Inr response, w1)
        \<and> tool_calls response \<noteq> []
        \<and> ask_tool_calls cfg r (tool_calls response)
             (list_append r (AIMessage (content response) (tool_calls response)) w1) = (Inr u, w2)
        \<and> ask_loop cfg llm m r n w = ask_loop cfg llm m r (n + 1) w2)"
proof (cases "n < m")
  case False
  then show ?thesis by (simp add: ask_loop.simps)
next
  case True
  obtain out w1 where i: "llm_invoke llm r w = (out, w1)" by (cases "llm_invoke llm r w")
  show ?thesis
  proof (cases out)
    case (Inl e)
    with True i show ?thesis by (subst ask_loop.simps) simp
  next
    case (Inr response)
    show ?thesis
    proof (cases "tool_calls response = []")
      case True
      with \<open>n < m\<close> i Inr show ?thesis by (subst ask_loop.simps) simp
    next
      case False
      obtain o2 w2 where t: "ask_tool_calls cfg r (tool_calls response)
             (list_append r (AIMessage (content response) (tool_calls response)) w1) = (o2, w2)"
        by (cases "ask_tool_calls cfg r (tool_calls response)
             (list_append r (AIMessage (content response) (tool_calls response)) w1)")
      show ?thesis
      proof (cases o2)
        case (Inl e)
        with \<open>n < m\<close> i Inr False t show ?thesis by (subst ask_loop.simps) simp
      next
        case (Inr u)
        with \<open>n < m\<close> i \<open>out = Inr response\<close> False t show ?thesis
          by (subst (1 2 3 4 5) ask_loop.simps) simp
      qed
    qed
  qed
qed

lemma ask_loop_frame:
  "ask_loop cfg llm m r n w = (res, w') \<Longrightarrow>
   length (heap w') = length (heap w) \<and> (\<forall>a. a \<noteq> r \<longrightarrow> heap w' ! a = heap w ! a)"
proof (induction "nat (m - n)" arbitrary: n w)
  case 0
  then have "\<not> n < m" by simp
  with 0 show ?case by (simp add: ask_loop.simps)
next
  case (Suc k)
  then have lt: "n < m" by linarith
  consider
    (model_raises) e w1 where "llm_invoke llm r w = (Inl e, w1)"
      "ask_loop cfg llm m r n w = (Inl e, w1)"
  | (final) response w1 where "llm_invoke llm r w = (Inr response, w1)"
      "ask_loop cfg llm m r n w =
         (Inr (content response),
          list_append r (AIMessage (content response) (tool_calls response)) w1)"
  | (tool_raises) response w1 e w2 where "llm_invoke llm r w = (Inr response, w1)"
      "ask_tool_calls cfg r (tool_calls response)
         (list_append r (AIMessage (content response) (tool_calls response)) w1) = (Inl e, w2)"
      "ask_loop cfg llm m r n w = (Inl e, w2)"
  | (again) response w1 u w2 where "llm_invoke llm r w = (Inr response, w1)"
      "ask_tool_calls cfg r (tool_calls response)
         (list_append r (AIMessage (content response) (tool_calls response)) w1) = (Inr u, w2)"
      "ask_loop cfg llm m r n w = ask_loop cfg llm m r (n + 1) w2"
    using ask_loop_cases [of n m cfg llm r w] lt by blast
  then show ?case
  proof cases
    case model_raises
    with Suc.prems llm_invoke_effect [OF model_raises(1)] show ?thesis by simp
  next
    case final
    with Suc.prems llm_invoke_effect [OF final(1)] show ?thesis
      by (auto simp: list_append_simps)
  next
    case tool_raises
    with Suc.prems llm_invoke_effect [OF tool_raises(1)] ask_tool_calls_effect [OF tool_raises(2)]
    show ?thesis by (auto simp: list_append_simps)
  next
    case again
    have k: "k = nat (m - (n + 1))" using Suc.hyps(2) by linarith
    from again(3) Suc.prems have run: "ask_loop cfg llm m r (n + 1) w2 = (res, w')" by simp
    from Suc.hyps(1) [OF k run] llm_invoke_effect [OF again(1)] ask_tool_calls_effect [OF again(2)]
    show ?thesis by (auto simp: list_append_simps)
  qed
qed

lemma list_copy_effect:
  "list_copy h w = (r, w1) \<Longrightarrow>
     r = length (heap w) \<and> heap w1 = heap w @ [heap w ! h] \<and> model w1 = model w
     \<and> calls w1 = calls w \<and> events w1 = events w"
  by (auto simp: list_copy_def)

text \<open>
  C10. Whatever \<open>ask\<close> ends with, a value or any exception, the list object the caller
  passed as \<open>history\<close> holds the same messages after the call as before; so does every
  list that existed before the call. All that \<open>ask\<close> appends goes to the one list it
  allocated, the copy.
\<close>

theorem ask_leaves_history:
  assumes "history < length (heap w)"
    and "ask cfg query history llm max_iterations w = (res, w')"
  shows "heap w' ! history = heap w ! history
       \<and> take (length (heap w)) (heap w') = heap w
       \<and> length (heap w') = length (heap w) + 1"
proof -
  let ?r = "length (heap w)"
  let ?w1 = "w\<lparr>heap := heap w @ [heap w ! history]\<rparr>"
  let ?w2 = "list_append ?r (HumanMessage query) ?w1"
  from assms(2) have run: "ask_loop cfg llm max_iterations ?r 0 ?w2 = (res, w')"
    by (simp add: ask_def list_copy_def)
  from ask_loop_frame [OF run]
  have len: "length (heap w') = length (heap w) + 1"
    and other: "\<And>a. a \<noteq> ?r \<Longrightarrow> heap w' ! a = heap ?w2 ! a"
    by (simp_all add: list_append_simps)
  have old: "heap w' ! a = heap w ! a" if "a < length (heap w)" for a
    using other [of a] that by (simp add: list_append_def nth_append)
  have "take (length (heap w)) (heap w') = heap w"
    by (rule nth_equalityI) (simp_all add: len old)
  with old [OF assms(1)] len show ?thesis by simp
qed

lemma paired_snoc:
  "paired cs \<Longrightarrow> (cs \<noteq> [] \<longrightarrow> answered (last cs) (fst c)) \<Longrightarrow> paired (cs @ [c])"
  by (induction cs rule: paired.induct) auto

lemma answered_after_tools:
  assumes "map tool_result_id results = map (\<lambda>tc. Some (tc_id tc)) (tool_calls response)"
  shows "answered (shown, response)
           ((shown @ [AIMessage (content response) (tool_calls response)]) @ results)"
  using assms by (simp add: answered_def)

lemma ask_loop_paired:
  assumes "ask_loop cfg llm m r n w = (res, w')" and "r < length (heap w)"
    and "calls w = pre @ cs" and "paired cs"
    and "cs \<noteq> [] \<longrightarrow> answered (last cs) (heap w ! r)"
  shows "\<exists>cs'. calls w' = pre @ cs' \<and> paired cs'"
  using assms
proof (induction "nat (m - n)" arbitrary: n w cs)
  case 0
  then have "\<not> n < m" by simp
  with 0 show ?case by (auto simp: ask_loop.simps)
next
  case (Suc k)
  then have lt: "n < m" by linarith
  consider
    (model_raises) e w1 where "llm_invoke llm r w = (Inl e, w1)"
      "ask_loop cfg llm m r n w = (Inl e, w1)"
  | (final) response w1 where "llm_invoke llm r w = (Inr response, w1)"
      "ask_loop cfg llm m r n w =
         (Inr (content response),
          list_append r (AIMessage (content response) (tool_calls response)) w1)"
  | (tool_raises) response w1 e w2 where "llm_invoke llm r w = (Inr response, w1)"
      "ask_tool_calls cfg r (tool_calls response)
         (list_append r (AIMessage (content response) (tool_calls response)) w1) = (Inl e, w2)"
      "ask_loop cfg llm m r n w = (Inl e, w2)"
  | (again) response w1 u w2 where "llm_invoke llm r w = (Inr response, w1)"
      "ask_tool_calls cfg r (tool_calls response)
         (list_append r (AIMessage (content response) (tool_calls response)) w1) = (Inr u, w2)"
      "ask_loop cfg llm m r n w = ask_loop cfg llm m r (n + 1) w2"
    using ask_loop_cases [of n m cfg llm r w] lt by blast
  then show ?case
  proof cases
    case model_raises
    with Suc.prems llm_invoke_effect [OF model_raises(1)] show ?thesis by auto
  next
    case final
    let ?cs = "cs @ [(heap w ! r, response)]"
    have "paired ?cs" using Suc.prems(4,5) by (intro paired_snoc) simp_all
    moreover have "calls w' = pre @ ?cs"
      using final Suc.prems(1,3) llm_invoke_effect [OF final(1)] by (auto simp: list_append_simps)
    ultimately show ?thesis by blast
  next
    case tool_raises
    let ?cs = "cs @ [(heap w ! r, response)]"
    have "paired ?cs" using Suc.prems(4,5) by (intro paired_snoc) simp_all
    moreover have "calls w' = pre @ ?cs"
      using tool_raises Suc.prems(1,3) llm_invoke_effect [OF tool_raises(1)]
        ask_tool_calls_effect [OF tool_raises(2)]
      by (auto simp: list_append_simps)
    ultimately show ?thesis by blast
  next
    case again
    let ?cs = "cs @ [(heap w ! r, response)]"
    let ?ai = "AIMessage (content response) (tool_calls response)"
    have k: "k = nat (m - (n + 1))" using Suc.hyps(2) by linarith
    from again(3) Suc.prems(1) have run: "ask_loop cfg llm m r (n + 1) w2 = (res, w')" by simp
    have h1: "heap w1 = heap w" and c1: "calls w1 = calls w @ [(heap w ! r, response)]"
      using llm_invoke_effect [OF again(1)] by simp_all
    have r1: "r < length (heap (list_append r ?ai w1))"
      using Suc.prems(2) h1 by (simp add: list_append_simps)
    from ask_tool_calls_effect [OF again(2)] r1
    obtain results where eff: "calls w2 = calls w1" "length (heap w2) = length (heap w)"
      "heap w2 ! r = heap (list_append r ?ai w1) ! r @ results"
      "map tool_result_id results = map (\<lambda>tc. Some (tc_id tc)) (tool_calls response)"
      using h1 by (auto simp: list_append_simps)
    have hr: "heap w2 ! r = (heap w ! r @ [?ai]) @ results"
      using eff(3) Suc.prems(2) h1 by (simp add: list_append_simps)
    have p: "paired ?cs" using Suc.prems(4,5) by (intro paired_snoc) simp_all
    have a: "?cs \<noteq> [] \<longrightarrow> answered (last ?cs) (heap w2 ! r)"
      using answered_after_tools [OF eff(4), of "heap w ! r"] hr by simp
    have c: "calls w2 = pre @ ?cs" using eff(1) c1 Suc.prems(3) by simp
    have r2: "r < length (heap w2)" using eff(2) Suc.prems(2) by simp
    from Suc.hyps(1) [OF k run r2 c p a] show ?thesis .
  qed
qed

text \<open>
  C4. Of the invocations of the model that one call of \<open>ask\<close> makes (those it adds to
  \<open>calls\<close>), each that is followed by another was shown a message list \<open>shown\<close> and
  gave a \<open>response\<close> such that the next was shown \<open>shown\<close>, the assistant message of
  \<open>response\<close>, and then exactly one tool-result message per tool call of \<open>response\<close>,
  tagged with the identifiers of the calls in their order, and nothing else.
\<close>

theorem ask_pairs_tool_results:
  assumes "ask cfg query history llm max_iterations w = (res, w')"
  shows "take (length (calls w)) (calls w') = calls w
       \<and> paired (drop (length (calls w)) (calls w'))"
proof -
  let ?r = "length (heap w)"
  let ?w1 = "w\<lparr>heap := heap w @ [heap w ! history]\<rparr>"
  let ?w2 = "list_append ?r (HumanMessage query) ?w1"
  from assms have run: "ask_loop cfg llm max_iterations ?r 0 ?w2 = (res, w')"
    by (simp add: ask_def list_copy_def)
  have r: "?r < length (heap ?w2)" by (simp add: list_append_simps)
  have c: "calls ?w2 = calls w @ []" by (simp add: list_append_simps)
  from ask_loop_paired [OF run r c] obtain cs' where "calls w' = calls w @ cs'" "paired cs'"
    by auto
  then show ?thesis by simp
qed





text \<open>Two conversations, evaluated.\<close>

lemmas run_defs = ask_def list_copy_def list_append_def llm_invoke_def stub_llm_def
  start_world_def call_tool_def tools_by_name_simps list_tables_def with_sql_cursor_def
  list_tables_body_def execute_fetchall_events shop_env_def shop_engine_def
  select_table_names_def shop_master_def ascii_lower_def

lemma one_round_run:
  "fst (ask shop_env ''Which tables are there?'' 0 (stub_llm one_round_script) 10 start_world)
     = Inr ''One table: orders.''
 \<and> heap (snd (ask shop_env ''Which tables are there?'' 0 (stub_llm one_round_script) 10
               start_world))
     = [[SystemMessage ''You are QueryMind.''],
        [SystemMessage ''You are QueryMind.'', HumanMessage ''Which tables are there?'',
         AIMessage [] [list_call],
         ToolMessage (py_str_list [SqlText ''orders'']) ''call_1'',
         AIMessage ''One table: orders.'' []]]
 \<and> map snd (calls (snd (ask shop_env ''Which tables are there?'' 0 (stub_llm one_round_script) 10
               start_world)))
     = [\<lparr>content = [], tool_calls = [list_call]\<rparr>,
        \<lparr>content = ''One table: orders.'', tool_calls = []\<rparr>]
 \<and> length (calls (snd (ask shop_env ''Which tables are there?'' 0 (stub_llm one_round_script) 10
               start_world))) = 2"
  by (simp add: run_defs ask_loop.simps one_round_script_def list_call_def)


theorem ask_leaves_history_witness:
  "0 < length (heap start_world)
   \<and> heap (snd (ask shop_env ''Which tables are there?'' 0 (stub_llm one_round_script) 10
        start_world)) ! 0 = [SystemMessage ''You are QueryMind.'']
   \<and> length (heap (snd (ask shop_env ''Which tables are there?'' 0 (stub_llm one_round_script) 10
        start_world))) = 2"
proof -
  have h: "0 < length (heap start_world)" by (simp add: start_world_def)
  show ?thesis
    using ask_leaves_history
            [where cfg = shop_env and query = "''Which tables are there?''"
               and llm = "stub_llm one_round_script" and max_iterations = 10,
             OF h surjective_pairing]
    by (simp add: start_world_def)
qed

theorem ask_pairs_tool_results_witness:
  "paired (calls (snd (ask shop_env ''Which tables are there?'' 0 (stub_llm one_round_script) 10
        start_world)))
   \<and> length (calls (snd (ask shop_env ''Which tables are there?'' 0 (stub_llm one_round_script) 10
        start_world))) = 2"
  using one_round_run
        ask_pairs_tool_results
          [where cfg = shop_env and query = "''Which tables are there?''" and history = 0
             and llm = "stub_llm one_round_script" and max_iterations = 10 and w = start_world,
           OF surjective_pairing]
  by (simp add: start_world_def)





end
